theory Spec2Isabelle
  imports Main
begin

section \<open>Coeus: a minimal version-control engine (src/Coeus.mjs)\<close>

text \<open>
  The class \<open>Coeus\<close> keeps all of its state in files below \<open>.coeus\<close>: one file per
  stored object in \<open>.coeus/objects\<close>, the file \<open>.coeus/HEAD\<close> and the file
  \<open>.coeus/index\<close>. Every method reads and writes these files and prints to the console.
  The embedding passes the file system and the console explicitly, and returns, for every
  method, either the value of the fulfilled promise (\<open>Inr\<close>) or the exception of the rejected
  one (\<open>Inl\<close>), together with the state as the method left it.

  Every command builds a \<open>Coeus\<close> object, whose constructor starts \<open>init\<close> without
  awaiting it. The methods are modelled one by one, each running alone from its first
  statement to its last; how the pending \<open>init\<close> interleaves with the method that the
  command calls next is outside the model.
\<close>

subsection \<open>JavaScript values read from and written to JSON\<close>

text \<open>
  The values that \<open>JSON.parse\<close> returns. An object is the list of its properties in order.
  \<open>undefined\<close>, which a property access may yield, is \<open>None\<close> of \<open>json option\<close>.
\<close>

datatype json =
    JNull
  | JBool bool
  | JNum int
  | JStr string
  | JArr "json list"
  | JObj "(string \<times> json) list"

type_synonym jsval = "json option"

text \<open>The test of \<open>if (v)\<close>, \<open>while (v)\<close> and \<open>!v\<close>.\<close>

fun truthy :: "jsval \<Rightarrow> bool" where
  "truthy None = False"
| "truthy (Some JNull) = False"
| "truthy (Some (JBool b)) = b"
| "truthy (Some (JNum n)) = (n \<noteq> 0)"
| "truthy (Some (JStr s)) = (s \<noteq> [])"
| "truthy (Some (JArr xs)) = True"
| "truthy (Some (JObj kvs)) = True"

text \<open>
  The three exceptions the methods can raise: a file that cannot be read, a text that
  \<open>JSON.parse\<close> rejects, and a \<open>TypeError\<close> (property of \<open>null\<close> or \<open>undefined\<close>, call
  of something that is no function, iteration over something not iterable, a path
  argument that is no string).
\<close>

datatype error = ReadError | SyntaxError | TypeError

text \<open>
  Property access \<open>v.k\<close> for the property names the program uses (\<open>files\<close>, \<open>parent\<close>,
  \<open>timestamp\<close>, \<open>message\<close>, \<open>path\<close>, \<open>hash\<close>): it throws on \<open>null\<close> and \<open>undefined\<close>,
  looks the name up in an object, and is \<open>undefined\<close> on every other value.
\<close>

fun getprop :: "jsval \<Rightarrow> string \<Rightarrow> error + jsval" where
  "getprop None k = Inl TypeError"
| "getprop (Some JNull) k = Inl TypeError"
| "getprop (Some (JObj kvs)) k = Inr (map_of kvs k)"
| "getprop (Some v) k = Inr None"

text \<open>Strict equality \<open>a === b\<close>: by value on primitives, by identity on arrays and
  objects, and two values obtained from parsed texts are never the same array or object.\<close>

fun strict_eq :: "jsval \<Rightarrow> jsval \<Rightarrow> bool" where
  "strict_eq None None = True"
| "strict_eq (Some JNull) (Some JNull) = True"
| "strict_eq (Some (JBool a)) (Some (JBool b)) = (a = b)"
| "strict_eq (Some (JNum a)) (Some (JNum b)) = (a = b)"
| "strict_eq (Some (JStr a)) (Some (JStr b)) = (a = b)"
| "strict_eq a b = False"

subsection \<open>The libraries the program imports\<close>

text \<open>
  \<open>crypto\<close>, \<open>JSON\<close>, \<open>diff\<close> and \<open>path\<close> are not part of the repository. They are
  parameters of the model:
  \<^item> \<open>sha1 s\<close> is \<open>crypto.createHash('sha1').update(s, 'utf-8').digest('hex')\<close>;
  \<^item> \<open>stringify\<close> and \<open>parse\<close> are \<open>JSON.stringify\<close> and \<open>JSON.parse\<close>, the latter
    \<open>None\<close> where it throws a \<open>SyntaxError\<close>;
  \<^item> \<open>diff_lines\<close> is \<open>diffLines\<close> of the package \<open>diff\<close>;
  \<^item> \<open>resolve\<close> maps the path given on the command line to the file it names.
\<close>

record part =
  added :: bool
  removed :: bool
  val :: string

datatype loc = ObjectFile string | HeadFile | IndexFile | OtherFile string

record lib =
  sha1 :: "string \<Rightarrow> string"
  stringify :: "json \<Rightarrow> string"
  parse :: "string \<Rightarrow> json option"
  diff_lines :: "string \<Rightarrow> string \<Rightarrow> part list"
  resolve :: "string \<Rightarrow> loc"

subsection \<open>State: the files and the console\<close>

text \<open>
  \<open>ObjectFile h\<close> is \<open>path.join(this.objectsPath, h)\<close>, \<open>HeadFile\<close> is \<open>this.headPath\<close> and
  \<open>IndexFile\<close> is \<open>this.indexPath\<close>. The directories \<open>.coeus\<close> and \<open>.coeus/objects\<close>
  exist (the constructor makes them) and object names are plain file names, as the digests
  are. Every read of the program is \<open>fs.readFile(p, {encoding: 'utf-8'})\<close>, and \<open>files s p\<close>
  is what that read returns: the text of the file, that is its bytes decoded as UTF-8.
  The bytes themselves and the decoding are the subject of the next subsection. Reading a
  file that does not exist fails; failures of the storage medium are not modelled.

  The console is the list of what was printed. A template literal is kept unrendered:
  the constructor is the template and its arguments are the interpolated values.
\<close>

datatype out_item =
    Log string
  | LogAdded string
  | LogCommitted string
  | LogCommit string jsval jsval
  | LogFile jsval
  | LogReadFailed error
  | Green string
  | Red string
  | Grey string

record state =
  files :: "loc \<rightharpoonup> string"
  out :: "out_item list"

type_synonym 'a result = "(error + 'a) \<times> state"

definition readFile :: "loc \<Rightarrow> state \<Rightarrow> string result" where
  "readFile p s = (case files s p of None \<Rightarrow> (Inl ReadError, s) | Some t \<Rightarrow> (Inr t, s))"

definition writeFile :: "loc \<Rightarrow> string \<Rightarrow> state \<Rightarrow> state" where
  "writeFile p t s = s\<lparr>files := (files s)(p \<mapsto> t)\<rparr>"

definition console_log :: "out_item \<Rightarrow> state \<Rightarrow> state" where
  "console_log x s = s\<lparr>out := out s @ [x]\<rparr>"

subsection \<open>Bytes and text\<close>

text \<open>
  A file on disk holds bytes. \<open>fs.readFile\<close> with encoding \<open>utf-8\<close> decodes them, putting
  the character U+FFFD in the place of every maximal part that is not well-formed UTF-8
  (the decoder of the WHATWG Encoding Standard, which Node follows); \<open>fs.writeFile\<close>
  with a string stores the UTF-8 encoding of the string. A text of the model is the string
  of the bytes of its UTF-8 encoding, so writing stores the string as it is, and
  \<open>utf8_decode\<close> maps the bytes of a file to the text that a read returns: well-formed
  sequences are kept and U+FFFD appears as its encoding \<open>EF BF BD\<close>.

  The decoder is a state machine: \<open>Start\<close> between characters, and \<open>Cont n lo hi acc\<close>
  inside a character, with \<open>n\<close> bytes still needed, the next of them in the range from
  \<open>lo\<close> to \<open>hi\<close>, and the bytes \<open>acc\<close> read so far. A byte out of range ends the
  character with U+FFFD and is then read again as the first byte of the next one.
\<close>

definition replacement :: string where
  "replacement = [CHR 0xEF, CHR 0xBF, CHR 0xBD]"

datatype utf8_state = Start | Cont nat nat nat string

definition lead :: "char \<Rightarrow> string + utf8_state" where
  "lead c =
     (let b = (of_char c :: nat) in
      if b < 0x80 then Inl [c]
      else if 0xC2 \<le> b \<and> b \<le> 0xDF then Inr (Cont 1 0x80 0xBF [c])
      else if 0xE0 \<le> b \<and> b \<le> 0xEF then
        Inr (Cont 2 (if b = 0xE0 then 0xA0 else 0x80) (if b = 0xED then 0x9F else 0xBF) [c])
      else if 0xF0 \<le> b \<and> b \<le> 0xF4 then
        Inr (Cont 3 (if b = 0xF0 then 0x90 else 0x80) (if b = 0xF4 then 0x8F else 0xBF) [c])
      else Inl replacement)"

fun utf8_run :: "utf8_state \<Rightarrow> string \<Rightarrow> string" where
  "utf8_run Start [] = []"
| "utf8_run (Cont n lo hi acc) [] = replacement"
| "utf8_run Start (c # cs) =
     (case lead c of
        Inl t \<Rightarrow> t @ utf8_run Start cs
      | Inr st \<Rightarrow> utf8_run st cs)"
| "utf8_run (Cont n lo hi acc) (c # cs) =
     (if lo \<le> (of_char c :: nat) \<and> (of_char c :: nat) \<le> hi then
        (if n = 1 then acc @ [c] @ utf8_run Start cs
         else utf8_run (Cont (n - 1) 0x80 0xBF (acc @ [c])) cs)
      else replacement @
        (case lead c of
           Inl t \<Rightarrow> t @ utf8_run Start cs
         | Inr st \<Rightarrow> utf8_run st cs))"

definition utf8_decode :: "string \<Rightarrow> string" where
  "utf8_decode bs = utf8_run Start bs"

text \<open>The texts that the reads return on a disk \<open>d\<close> of bytes.\<close>

definition decoded :: "(loc \<rightharpoonup> string) \<Rightarrow> (loc \<rightharpoonup> string)" where
  "decoded d = (\<lambda>p. map_option utf8_decode (d p))"

text \<open>A state of the decoder is sound when reading the bytes it holds from \<open>Start\<close> leads
  to it.\<close>

definition reach :: "utf8_state \<Rightarrow> bool" where
  "reach st \<longleftrightarrow>
     (case st of
        Start \<Rightarrow> True
      | Cont n lo hi acc \<Rightarrow> (\<forall>xs. utf8_run Start (acc @ xs) = utf8_run (Cont n lo hi acc) xs))"

subsection \<open>init, hashObject, add, updateStagingArea\<close>

text \<open>
  \<open>init\<close>: both writes carry the flag \<open>wx\<close>, which fails when the file exists; the first
  failure leaves the \<open>try\<close> block.
\<close>

definition init :: "lib \<Rightarrow> state \<Rightarrow> state" where
  "init L s =
     (if files s HeadFile \<noteq> None then console_log (Log ''Already initialised the .coeus folder'') s
      else let s1 = writeFile HeadFile [] s in
        if files s1 IndexFile \<noteq> None then console_log (Log ''Already initialised the .coeus folder'') s1
        else writeFile IndexFile (stringify L (JArr [])) s1)"

definition hashObject :: "lib \<Rightarrow> string \<Rightarrow> string" where
  "hashObject L content = sha1 L content"

definition file_entry :: "string \<Rightarrow> string \<Rightarrow> json" where
  "file_entry filePath fileHash = JObj [(''path'', JStr filePath), (''hash'', JStr fileHash)]"

text \<open>\<open>index.push\<close> is a function only when the parsed index is an array.\<close>

definition updateStagingArea :: "lib \<Rightarrow> string \<Rightarrow> string \<Rightarrow> state \<Rightarrow> unit result" where
  "updateStagingArea L filePath fileHash s =
     (case readFile IndexFile s of
        (Inl e, s1) \<Rightarrow> (Inl e, s1)
      | (Inr t, s1) \<Rightarrow>
          (case parse L t of
             None \<Rightarrow> (Inl SyntaxError, s1)
           | Some (JArr index) \<Rightarrow>
               (Inr (), writeFile IndexFile (stringify L (JArr (index @ [file_entry filePath fileHash]))) s1)
           | Some _ \<Rightarrow> (Inl TypeError, s1)))"

definition add :: "lib \<Rightarrow> string \<Rightarrow> state \<Rightarrow> unit result" where
  "add L fileToBeAdded s =
     (case readFile (resolve L fileToBeAdded) s of
        (Inl e, s1) \<Rightarrow> (Inl e, s1)
      | (Inr fileData, s1) \<Rightarrow>
          (let fileHash = hashObject L fileData;
               s2 = writeFile (ObjectFile fileHash) fileData s1
           in case updateStagingArea L fileToBeAdded fileHash s2 of
                (Inl e, s3) \<Rightarrow> (Inl e, s3)
              | (Inr u, s3) \<Rightarrow> (Inr (), console_log (LogAdded fileToBeAdded) s3)))"

subsection \<open>getCurrentHead, commit\<close>

text \<open>\<open>getCurrentHead\<close> returns the content of the head file, and \<open>null\<close> when reading
  it fails. It has no other outcome.\<close>

definition getCurrentHead :: "state \<Rightarrow> json" where
  "getCurrentHead s =
     (case readFile HeadFile s of (Inl e, s1) \<Rightarrow> JNull | (Inr t, s1) \<Rightarrow> JStr t)"

text \<open>The object literal \<open>commitData\<close>; the timestamp is the clock's reading, an input.\<close>

definition commitData :: "string \<Rightarrow> string \<Rightarrow> json \<Rightarrow> json \<Rightarrow> json" where
  "commitData timestamp message index parentCommit =
     JObj [(''timestamp'', JStr timestamp), (''message'', JStr message),
           (''files'', index), (''parent'', parentCommit)]"

definition commit :: "lib \<Rightarrow> string \<Rightarrow> string \<Rightarrow> state \<Rightarrow> unit result" where
  "commit L timestamp message s =
     (case readFile IndexFile s of
        (Inl e, s1) \<Rightarrow> (Inl e, s1)
      | (Inr t, s1) \<Rightarrow>
          (case parse L t of
             None \<Rightarrow> (Inl SyntaxError, s1)
           | Some index \<Rightarrow>
               (let parentCommit = getCurrentHead s1;
                    cd = commitData timestamp message index parentCommit;
                    commitHash = hashObject L (stringify L cd);
                    s2 = writeFile (ObjectFile commitHash) (stringify L cd) s1;
                    s3 = writeFile HeadFile commitHash s2;
                    s4 = writeFile IndexFile (stringify L (JArr [])) s3
                in (Inr (), console_log (LogCommitted commitHash) s4))))"

subsection \<open>log\<close>

text \<open>
  The loop of \<open>log\<close> runs while the current hash is truthy, and nothing bounds the
  number of its rounds: a stored record may name itself as parent. Not returning is the
  value \<open>None\<close>. \<open>path.join\<close> throws a \<open>TypeError\<close> on an argument that is no string.
\<close>

definition separator :: string where
  "separator = ''X---------------X--------------X'' @ [CHR 0x0A]"

partial_function (option) walk :: "lib \<Rightarrow> jsval \<Rightarrow> state \<Rightarrow> unit result option" where
  "walk L currentCommitHash s =
     (if truthy currentCommitHash then
        (case currentCommitHash of
           Some (JStr h) \<Rightarrow>
             (case files s (ObjectFile h) of
                None \<Rightarrow> Some (Inl ReadError, s)
              | Some t \<Rightarrow>
                  (case parse L t of
                     None \<Rightarrow> Some (Inl SyntaxError, s)
                   | Some cd \<Rightarrow>
                       (case getprop (Some cd) ''timestamp'' of
                          Inl e \<Rightarrow> Some (Inl e, console_log (Log separator) s)
                        | Inr ts \<Rightarrow>
                            (case getprop (Some cd) ''message'' of
                               Inl e \<Rightarrow> Some (Inl e, console_log (Log separator) s)
                             | Inr m \<Rightarrow>
                                 (case getprop (Some cd) ''parent'' of
                                    Inl e \<Rightarrow> Some (Inl e, console_log (LogCommit h ts m)
                                                              (console_log (Log separator) s))
                                  | Inr p \<Rightarrow> walk L p (console_log (LogCommit h ts m)
                                                         (console_log (Log separator) s)))))))
         | _ \<Rightarrow> Some (Inl TypeError, s))
      else Some (Inr (), s))"

definition log :: "lib \<Rightarrow> state \<Rightarrow> unit result option" where
  "log L s = walk L (Some (getCurrentHead s)) s"

subsection \<open>showCommitDiff and its helpers\<close>

definition getFileContent :: "jsval \<Rightarrow> state \<Rightarrow> string result" where
  "getFileContent fileHash s =
     (case fileHash of
        Some (JStr h) \<Rightarrow> readFile (ObjectFile h) s
      | _ \<Rightarrow> (Inl TypeError, s))"

text \<open>\<open>getCommitData\<close> returns the text of the object, or \<open>null\<close> (here \<open>None\<close>) after
  printing the failure when the object cannot be read.\<close>

definition getCommitData :: "jsval \<Rightarrow> state \<Rightarrow> string option result" where
  "getCommitData commithash s =
     (case commithash of
        Some (JStr h) \<Rightarrow>
          (case readFile (ObjectFile h) s of
             (Inl e, s1) \<Rightarrow> (Inr None, console_log (LogReadFailed e) s1)
           | (Inr t, s1) \<Rightarrow> (Inr (Some t), s1))
      | _ \<Rightarrow> (Inl TypeError, s))"

text \<open>\<open>JSON.parse\<close> turns its argument into a string first: \<open>null\<close> becomes the text
  \<open>null\<close>.\<close>

definition JSON_parse :: "lib \<Rightarrow> string option \<Rightarrow> error + json" where
  "JSON_parse L raw =
     (case parse L (case raw of None \<Rightarrow> ''null'' | Some t \<Rightarrow> t) of
        None \<Rightarrow> Inl SyntaxError
      | Some v \<Rightarrow> Inr v)"

text \<open>\<open>files.find(file => file.path === filePath)\<close> on the elements of an array.\<close>

fun find_file :: "json list \<Rightarrow> jsval \<Rightarrow> error + jsval" where
  "find_file [] filePath = Inr None"
| "find_file (file # rest) filePath =
     (case getprop (Some file) ''path'' of
        Inl e \<Rightarrow> Inl e
      | Inr p \<Rightarrow> if strict_eq p filePath then Inr (Some file) else find_file rest filePath)"

text \<open>The result is the content (\<open>Some\<close>) or \<open>undefined\<close> (\<open>None\<close>). Only an array has
  a method \<open>find\<close>.\<close>

definition getParentFileContent :: "json \<Rightarrow> jsval \<Rightarrow> state \<Rightarrow> string option result" where
  "getParentFileContent parentCommitData filePath s =
     (case getprop (Some parentCommitData) ''files'' of
        Inl e \<Rightarrow> (Inl e, s)
      | Inr (Some (JArr fs)) \<Rightarrow>
          (case find_file fs filePath of
             Inl e \<Rightarrow> (Inl e, s)
           | Inr parentFile \<Rightarrow>
               if truthy parentFile then
                 (case getprop parentFile ''hash'' of
                    Inl e \<Rightarrow> (Inl e, s)
                  | Inr h \<Rightarrow>
                      (case getFileContent h s of
                         (Inl e, s1) \<Rightarrow> (Inl e, s1)
                       | (Inr c, s1) \<Rightarrow> (Inr (Some c), s1)))
               else (Inr None, s))
      | Inr _ \<Rightarrow> (Inl TypeError, s))"

definition write_part :: "part \<Rightarrow> out_item" where
  "write_part p =
     (if added p then Green (''++'' @ val p)
      else if removed p then Red (''--'' @ val p)
      else Grey (val p))"

text \<open>The body of the loop over \<open>commitData.files\<close>, for one element \<open>file\<close>.\<close>

definition show_file :: "lib \<Rightarrow> json \<Rightarrow> json \<Rightarrow> state \<Rightarrow> unit result" where
  "show_file L cd file s =
     (case getprop (Some file) ''path'' of
        Inl e \<Rightarrow> (Inl e, s)
      | Inr filePath \<Rightarrow>
     (let s1 = console_log (LogFile filePath) s in
      case getprop (Some file) ''hash'' of
        Inl e \<Rightarrow> (Inl e, s1)
      | Inr fileHash \<Rightarrow>
     (case getFileContent fileHash s1 of
        (Inl e, s2) \<Rightarrow> (Inl e, s2)
      | (Inr fileContent, s2) \<Rightarrow>
     (let s3 = console_log (Log fileContent) s2 in
      case getprop (Some cd) ''parent'' of
        Inl e \<Rightarrow> (Inl e, s3)
      | Inr parent \<Rightarrow>
          if truthy parent then
            (case getCommitData parent s3 of
               (Inl e, s4) \<Rightarrow> (Inl e, s4)
             | (Inr raw, s4) \<Rightarrow>
            (case JSON_parse L raw of
               Inl e \<Rightarrow> (Inl e, s4)
             | Inr parentCommitData \<Rightarrow>
            (case getParentFileContent parentCommitData filePath s4 of
               (Inl e, s5) \<Rightarrow> (Inl e, s5)
             | (Inr (Some old), s5) \<Rightarrow>
                 (Inr (), console_log (Log [])
                    (s5\<lparr>out := out s5 @ [Log (CHR 0x0A # ''Diff:'')]
                                @ map write_part (diff_lines L old fileContent)\<rparr>))
             | (Inr None, s5) \<Rightarrow>
                 (Inr (), console_log (Log ''New file in this commit'') s5))))
          else (Inr (), console_log (Log ''First commit'') s3)))))"

fun show_files :: "lib \<Rightarrow> json \<Rightarrow> json list \<Rightarrow> state \<Rightarrow> unit result" where
  "show_files L cd [] s = (Inr (), s)"
| "show_files L cd (file # rest) s =
     (case show_file L cd file s of
        (Inl e, s1) \<Rightarrow> (Inl e, s1)
      | (Inr u, s1) \<Rightarrow> show_files L cd rest s1)"

text \<open>What \<open>for (const file of v)\<close> runs through: the elements of an array, the
  characters of a string; any other value is not iterable.\<close>

fun iterate :: "jsval \<Rightarrow> error + json list" where
  "iterate (Some (JArr xs)) = Inr xs"
| "iterate (Some (JStr cs)) = Inr (map (\<lambda>c. JStr [c]) cs)"
| "iterate v = Inl TypeError"

definition showCommitDiff :: "lib \<Rightarrow> string \<Rightarrow> state \<Rightarrow> unit result" where
  "showCommitDiff L commitHash s =
     (case getCommitData (Some (JStr commitHash)) s of
        (Inl e, s1) \<Rightarrow> (Inl e, s1)
      | (Inr raw, s1) \<Rightarrow>
     (case JSON_parse L raw of
        Inl e \<Rightarrow> (Inl e, s1)
      | Inr cd \<Rightarrow>
          if \<not> truthy (Some cd) then (Inr (), console_log (Log ''Commit not found'') s1)
          else
            (let s2 = console_log (Log ''Changes in the last commit are: '') s1 in
             case getprop (Some cd) ''files'' of
               Inl e \<Rightarrow> (Inl e, s2)
             | Inr fs \<Rightarrow>
                 (case iterate fs of
                    Inl e \<Rightarrow> (Inl e, s2)
                  | Inr items \<Rightarrow> show_files L cd items s2))))"

subsection \<open>Runs of the program and what they leave behind\<close>

text \<open>A sequence of \<open>commit\<close> calls, each with the clock's reading and its message; the
  run stops at the first call that throws.\<close>

fun commits :: "lib \<Rightarrow> (string \<times> string) list \<Rightarrow> state \<Rightarrow> unit result" where
  "commits L [] s = (Inr (), s)"
| "commits L ((timestamp, message) # rest) s =
     (case commit L timestamp message s of
        (Inl e, s1) \<Rightarrow> (Inl e, s1)
      | (Inr u, s1) \<Rightarrow> commits L rest s1)"

text \<open>The hashes of the commits created, oldest first, as \<open>commit\<close> printed them.\<close>

fun committed :: "out_item list \<Rightarrow> string list" where
  "committed [] = []"
| "committed (LogCommitted h # rest) = h # committed rest"
| "committed (x # rest) = committed rest"

text \<open>What \<open>log\<close> prints for the commits \<open>(hash, timestamp, message)\<close> it visits, in
  the order of the visits.\<close>

fun log_lines :: "(string \<times> string \<times> string) list \<Rightarrow> out_item list" where
  "log_lines [] = []"
| "log_lines ((h, timestamp, message) # rest) =
     Log separator # LogCommit h (Some (JStr timestamp)) (Some (JStr message)) # log_lines rest"

text \<open>The \<open>parent\<close> field of the record stored under the hash \<open>h\<close>.\<close>

definition stored_parent :: "lib \<Rightarrow> string \<Rightarrow> state \<Rightarrow> error + jsval" where
  "stored_parent L h s =
     (case files s (ObjectFile h) of
        None \<Rightarrow> Inl ReadError
      | Some t \<Rightarrow>
          (case parse L t of
             None \<Rightarrow> Inl SyntaxError
           | Some cd \<Rightarrow> getprop (Some cd) ''parent''))"

text \<open>The \<open>parent\<close> field of the record that the head names.\<close>

definition head_parent :: "lib \<Rightarrow> state \<Rightarrow> error + jsval" where
  "head_parent L s =
     (case files s HeadFile of
        None \<Rightarrow> Inl ReadError
      | Some h \<Rightarrow> stored_parent L h s)"

text \<open>A chain of commit records with empty \<open>files\<close>, newest first, each stored under its
  hash and naming the next one as its parent; the oldest names the empty string.\<close>

fun chain_top :: "(string \<times> string \<times> string) list \<Rightarrow> string" where
  "chain_top [] = []"
| "chain_top ((h, timestamp, message) # older) = h"

fun chain :: "lib \<Rightarrow> (loc \<rightharpoonup> string) \<Rightarrow> (string \<times> string \<times> string) list \<Rightarrow> bool" where
  "chain L fs [] = True"
| "chain L fs ((h, timestamp, message) # older) =
     (h \<noteq> [] \<and>
      fs (ObjectFile h) =
        Some (stringify L (commitData timestamp message (JArr []) (JStr (chain_top older)))) \<and>
      chain L fs older)"

text \<open>A sequence of FileEntry values \<open>(path, hash)\<close> as the array that the index and a
  commit record hold.\<close>

definition entries :: "(string \<times> string) list \<Rightarrow> json" where
  "entries es = JArr (map (\<lambda>(p, h). file_entry p h) es)"

text \<open>The FileEntry values of files given as \<open>(path, hash, content)\<close>.\<close>

definition drop_content :: "(string \<times> string \<times> string) list \<Rightarrow> (string \<times> string) list" where
  "drop_content fes = map (\<lambda>(p, h, c). (p, h)) fes"

text \<open>What \<open>showCommitDiff\<close> prints for the files \<open>(path, hash, content)\<close> of a commit
  without parent.\<close>

fun first_commit_lines :: "(string \<times> string \<times> string) list \<Rightarrow> out_item list" where
  "first_commit_lines [] = []"
| "first_commit_lines ((p, h, c) # rest) =
     LogFile (Some (JStr p)) # Log c # Log ''First commit'' # first_commit_lines rest"

text \<open>What the proofs ask of the JSON functions, and what the real ones do: parsing a
  text that \<open>JSON.stringify\<close> produced gives the value back.\<close>

definition json_roundtrip :: "lib \<Rightarrow> bool" where
  "json_roundtrip L \<longleftrightarrow> (\<forall>v. parse L (stringify L v) = Some v)"

definition fresh :: state where
  "fresh = \<lparr>files = Map.empty, out = []\<rparr>"

subsection \<open>The diff engine\<close>

text \<open>
  Modelled from the spec: \<open>diffLines\<close> is imported from the package \<open>diff\<close>, whose code is
  not in the repository. Section 4.4 of the specification describes it: it splits both
  texts into lines, finds a minimal edit script from a longest common subsequence of the
  lines, and joins each run of consecutive lines of one kind into a single segment. A line
  keeps its line terminator, so that the segments of a text spell the text.
\<close>

datatype kind = Added | Removed | Unchanged

datatype segment = Segment kind string

fun split_lines :: "string \<Rightarrow> string list" where
  "split_lines [] = []"
| "split_lines (c # cs) =
     (if c = CHR 0x0A then [c] # split_lines cs
      else (case split_lines cs of
              [] \<Rightarrow> [[c]]
            | l # ls \<Rightarrow> (c # l) # ls))"

fun lcs_length :: "string list \<Rightarrow> string list \<Rightarrow> nat" where
  "lcs_length [] ys = 0"
| "lcs_length (x # xs) [] = 0"
| "lcs_length (x # xs) (y # ys) =
     (if x = y then Suc (lcs_length xs ys)
      else max (lcs_length xs (y # ys)) (lcs_length (x # xs) ys))"

fun edit_script :: "string list \<Rightarrow> string list \<Rightarrow> (kind \<times> string) list" where
  "edit_script [] ys = map (Pair Added) ys"
| "edit_script (x # xs) [] = map (Pair Removed) (x # xs)"
| "edit_script (x # xs) (y # ys) =
     (if x = y then (Unchanged, x) # edit_script xs ys
      else if lcs_length (x # xs) ys \<le> lcs_length xs (y # ys)
        then (Removed, x) # edit_script xs (y # ys)
        else (Added, y) # edit_script (x # xs) ys)"

fun coalesce :: "(kind \<times> string) list \<Rightarrow> segment list" where
  "coalesce [] = []"
| "coalesce [(k, t)] = [Segment k t]"
| "coalesce ((k, t) # (k', t') # rest) =
     (if k = k' then coalesce ((k, t @ t') # rest)
      else Segment k t # coalesce ((k', t') # rest))"

definition diffLines :: "string \<Rightarrow> string \<Rightarrow> segment list" where
  "diffLines oldText newText = coalesce (edit_script (split_lines oldText) (split_lines newText))"

subsection \<open>An instance of the libraries\<close>

text \<open>
  A small instance of the library parameters on which the model runs: a digest that
  marks its argument, a whole-text diff, the three paths of the repository, and a prefix
  code for JSON values with its decoder.
\<close>

definition toy_sha1 :: "string \<Rightarrow> string" where
  "toy_sha1 t = CHR ''#'' # t"

definition toy_diff :: "string \<Rightarrow> string \<Rightarrow> part list" where
  "toy_diff old new =
     (if old = new then [\<lparr>added = False, removed = False, val = new\<rparr>]
      else [\<lparr>added = False, removed = True, val = old\<rparr>,
            \<lparr>added = True, removed = False, val = new\<rparr>])"

definition toy_resolve :: "string \<Rightarrow> loc" where
  "toy_resolve p =
     (if p = ''.coeus/HEAD'' then HeadFile
      else if p = ''.coeus/index'' then IndexFile
      else if take 15 p = ''.coeus/objects/'' then ObjectFile (drop 15 p)
      else OtherFile p)"

fun enc_str :: "string \<Rightarrow> string" where
  "enc_str [] = ''.''"
| "enc_str (c # cs) = CHR ''+'' # c # enc_str cs"

fun dec_str :: "string \<Rightarrow> (string \<times> string) option" where
  "dec_str [] = None"
| "dec_str [a] = (if a = CHR ''.'' then Some ([], []) else None)"
| "dec_str (a # c # r) =
     (if a = CHR ''.'' then Some ([], c # r)
      else if a = CHR ''+'' then
        (case dec_str r of None \<Rightarrow> None | Some (cs, r1) \<Rightarrow> Some (c # cs, r1))
      else None)"

primrec toy_stringify :: "json \<Rightarrow> string" where
  "toy_stringify JNull = ''null''"
| "toy_stringify (JBool b) = (if b then ''t'' else ''f'')"
| "toy_stringify (JNum i) =
     (if 0 \<le> i then CHR ''p'' # enc_str (replicate (nat i) CHR ''1'')
      else CHR ''m'' # enc_str (replicate (nat (- i)) CHR ''1''))"
| "toy_stringify (JStr cs) = CHR ''s'' # enc_str cs"
| "toy_stringify (JArr xs) = CHR ''['' # concat (map toy_stringify xs) @ '']''"
| "toy_stringify (JObj kvs) =
     CHR ''{'' # concat (map (\<lambda>(k, t). CHR '':'' # enc_str k @ t)
                          (map (map_prod id toy_stringify) kvs)) @ ''}''"

text \<open>The decoder reads one value from the front of a text and returns the rest; its
  first argument bounds the depth of the recursion.\<close>

fun toy_dec :: "nat \<Rightarrow> string \<Rightarrow> (json \<times> string) option"
  and toy_decs :: "nat \<Rightarrow> string \<Rightarrow> (json list \<times> string) option"
  and toy_deco :: "nat \<Rightarrow> string \<Rightarrow> ((string \<times> json) list \<times> string) option"
where
  "toy_dec 0 r = None"
| "toy_dec (Suc n) [] = None"
| "toy_dec (Suc n) (c # r) =
     (if c = CHR ''n'' then (if take 3 r = ''ull'' then Some (JNull, drop 3 r) else None)
      else if c = CHR ''t'' then Some (JBool True, r)
      else if c = CHR ''f'' then Some (JBool False, r)
      else if c = CHR ''p'' then
        (case dec_str r of None \<Rightarrow> None | Some (cs, r1) \<Rightarrow> Some (JNum (int (length cs)), r1))
      else if c = CHR ''m'' then
        (case dec_str r of None \<Rightarrow> None | Some (cs, r1) \<Rightarrow> Some (JNum (- int (length cs)), r1))
      else if c = CHR ''s'' then
        (case dec_str r of None \<Rightarrow> None | Some (cs, r1) \<Rightarrow> Some (JStr cs, r1))
      else if c = CHR ''['' then
        (case toy_decs n r of None \<Rightarrow> None | Some (xs, r1) \<Rightarrow> Some (JArr xs, r1))
      else if c = CHR ''{'' then
        (case toy_deco n r of None \<Rightarrow> None | Some (kvs, r1) \<Rightarrow> Some (JObj kvs, r1))
      else None)"
| "toy_decs 0 r = None"
| "toy_decs (Suc n) [] = None"
| "toy_decs (Suc n) (c # r) =
     (if c = CHR '']'' then Some ([], r)
      else (case toy_dec n (c # r) of
              None \<Rightarrow> None
            | Some (x, r1) \<Rightarrow>
                (case toy_decs n r1 of None \<Rightarrow> None | Some (xs, r2) \<Rightarrow> Some (x # xs, r2))))"
| "toy_deco 0 r = None"
| "toy_deco (Suc n) [] = None"
| "toy_deco (Suc n) (c # r) =
     (if c = CHR ''}'' then Some ([], r)
      else if c = CHR '':'' then
        (case dec_str r of
           None \<Rightarrow> None
         | Some (k, r1) \<Rightarrow>
             (case toy_dec n r1 of
                None \<Rightarrow> None
              | Some (v, r2) \<Rightarrow>
                  (case toy_deco n r2 of
                     None \<Rightarrow> None
                   | Some (kvs, r3) \<Rightarrow> Some ((k, v) # kvs, r3))))
      else None)"

definition toy_parse :: "string \<Rightarrow> json option" where
  "toy_parse t = (case toy_dec (Suc (length t)) t of Some (v, []) \<Rightarrow> Some v | _ \<Rightarrow> None)"

definition toy_lib :: lib where
  "toy_lib = \<lparr>sha1 = toy_sha1, stringify = toy_stringify, parse = toy_parse,
              diff_lines = toy_diff, resolve = toy_resolve\<rparr>"

text \<open>A freshly initialised repository beside two working files.\<close>

definition demo_repo :: state where
  "demo_repo = writeFile (OtherFile ''b.txt'') ''world''
                 (writeFile (OtherFile ''a.txt'') ''hello'' (init toy_lib fresh))"

text \<open>An initialised repository on disk beside a text file and a file of three bytes that
  are not UTF-8, and the state that the reads of the program see on it.\<close>

definition demo_disk :: "loc \<rightharpoonup> string" where
  "demo_disk = [HeadFile \<mapsto> [], IndexFile \<mapsto> ''[]'', OtherFile ''a.txt'' \<mapsto> ''hello'',
                OtherFile ''x.bin'' \<mapsto> [CHR 0xFF, CHR 0xFE, CHR 0x41]]"

definition demo_mounted :: state where
  "demo_mounted = \<lparr>files = decoded demo_disk, out = []\<rparr>"

text \<open>The same repository beside a third working file, a copy of the first.\<close>

definition demo_copy :: state where
  "demo_copy = writeFile (OtherFile ''c.txt'') ''hello'' demo_repo"

text \<open>Two commits in a freshly initialised repository.\<close>

definition demo_commits :: "(string \<times> string) list" where
  "demo_commits = [(''2026-01-01T00:00:00.000Z'', ''first''),
                   (''2026-01-02T00:00:00.000Z'', ''second'')]"

definition demo_history :: state where
  "demo_history = snd (commits toy_lib demo_commits (init toy_lib fresh))"

text \<open>The first working file added and committed, then the second.\<close>

definition demo_first :: state where
  "demo_first = snd (commit toy_lib ''2026-01-01T00:00:00.000Z'' ''first''
                  (snd (add toy_lib ''a.txt'' demo_repo)))"

definition demo_second :: state where
  "demo_second = snd (commit toy_lib ''2026-01-02T00:00:00.000Z'' ''second''
                   (snd (add toy_lib ''b.txt'' demo_first)))"

text \<open>The two commit records of that history and the hash of the first.\<close>

definition demo_cd1 :: json where
  "demo_cd1 = commitData ''2026-01-01T00:00:00.000Z'' ''first''
                (entries [(''a.txt'', hashObject toy_lib ''hello'')]) (JStr [])"

definition demo_h1 :: string where
  "demo_h1 = hashObject toy_lib (stringify toy_lib demo_cd1)"

definition demo_cd2 :: json where
  "demo_cd2 = commitData ''2026-01-02T00:00:00.000Z'' ''second''
                (entries [(''b.txt'', hashObject toy_lib ''world'')]) (JStr demo_h1)"

section \<open>The instance of the libraries is a JSON codec\<close>

lemma dec_enc_str: "dec_str (enc_str cs @ r) = Some (cs, r)"
  by (induction cs) (auto simp: neq_Nil_conv split: list.splits, (cases r; simp)+)

lemma toy_stringify_Cons: "\<exists>c r. toy_stringify v = c # r \<and> c \<noteq> CHR '']''"
  by (cases v) auto

lemma toy_decs_roundtrip:
  assumes "\<And>x n r. x \<in> set xs \<Longrightarrow> length (toy_stringify x) < n
             \<Longrightarrow> toy_dec n (toy_stringify x @ r) = Some (x, r)"
    and "length (concat (map toy_stringify xs)) + 1 < n"
  shows "toy_decs n (concat (map toy_stringify xs) @ CHR '']'' # r) = Some (xs, r)"
  using assms
proof (induction xs arbitrary: n)
  case Nil
  then obtain m where "n = Suc m" by (cases n) auto
  then show ?case by simp
next
  case (Cons x xs)
  obtain m where n: "n = Suc m" using Cons.prems(2) by (cases n) auto
  obtain c t where ct: "toy_stringify x = c # t" "c \<noteq> CHR '']''"
    using toy_stringify_Cons by blast
  have 1: "toy_dec m (toy_stringify x @ concat (map toy_stringify xs) @ CHR '']'' # r)
           = Some (x, concat (map toy_stringify xs) @ CHR '']'' # r)"
    using Cons.prems n by (intro Cons.prems(1)) auto
  have 2: "toy_decs m (concat (map toy_stringify xs) @ CHR '']'' # r) = Some (xs, r)"
    using Cons.prems n ct by (intro Cons.IH) auto
  show ?case using 1 2 ct by (simp add: n)
qed

lemma toy_deco_roundtrip:
  assumes "\<And>k x n r. (k, x) \<in> set kvs \<Longrightarrow> length (toy_stringify x) < n
             \<Longrightarrow> toy_dec n (toy_stringify x @ r) = Some (x, r)"
    and "length (concat (map (\<lambda>(k, t). CHR '':'' # enc_str k @ t)
                          (map (map_prod id toy_stringify) kvs))) + 1 < n"
  shows "toy_deco n (concat (map (\<lambda>(k, t). CHR '':'' # enc_str k @ t)
                          (map (map_prod id toy_stringify) kvs)) @ CHR ''}'' # r) = Some (kvs, r)"
  using assms
proof (induction kvs arbitrary: n)
  case Nil
  then obtain m where "n = Suc m" by (cases n) auto
  then show ?case by simp
next
  case (Cons kv kvs)
  obtain k x where kv: "kv = (k, x)" by (cases kv)
  obtain m where n: "n = Suc m" using Cons.prems(2) by (cases n) auto
  let ?rest = "concat (map (\<lambda>(k, t). CHR '':'' # enc_str k @ t)
                        (map (map_prod id toy_stringify) kvs)) @ CHR ''}'' # r"
  have 1: "toy_dec m (toy_stringify x @ ?rest) = Some (x, ?rest)"
    using Cons.prems n kv by (intro Cons.prems(1)[of k]) auto
  have 2: "toy_deco m ?rest = Some (kvs, r)"
    using Cons.prems n kv by (intro Cons.IH) auto
  show ?case using 1 2 by (simp add: n kv dec_enc_str id_def)
qed

lemma toy_dec_roundtrip:
  "length (toy_stringify v) < n \<Longrightarrow> toy_dec n (toy_stringify v @ r) = Some (v, r)"
proof (induction v arbitrary: n r)
  case (JArr xs)
  obtain m where n: "n = Suc m" using JArr.prems by (cases n) auto
  have "toy_decs m (concat (map toy_stringify xs) @ CHR '']'' # r) = Some (xs, r)"
    using JArr.prems n by (intro toy_decs_roundtrip JArr.IH) auto
  then show ?case by (simp add: n)
next
  case (JObj kvs)
  obtain m where n: "n = Suc m" using JObj.prems by (cases n) auto
  have "toy_deco m (concat (map (\<lambda>(k, t). CHR '':'' # enc_str k @ t)
                      (map (map_prod id toy_stringify) kvs)) @ CHR ''}'' # r) = Some (kvs, r)"
    using JObj.prems n by (intro toy_deco_roundtrip JObj.IH[of "(k, x)" for k x]) auto
  then show ?case by (simp add: n)
next
  case JNull
  then obtain m where n: "n = Suc m" by (cases n) auto
  show ?case by (simp add: n)
next
  case (JBool b)
  then obtain m where n: "n = Suc m" by (cases n) auto
  show ?case by (simp add: n)
next
  case (JNum i)
  then obtain m where n: "n = Suc m" by (cases n) auto
  show ?case by (simp add: n dec_enc_str)
next
  case (JStr cs)
  then obtain m where n: "n = Suc m" by (cases n) auto
  show ?case by (simp add: n dec_enc_str)
qed

lemma toy_parse_stringify: "toy_parse (toy_stringify v) = Some v"
  using toy_dec_roundtrip[of v "Suc (length (toy_stringify v))" "[]"]
  by (simp add: toy_parse_def)

lemma toy_lib_roundtrip: "json_roundtrip toy_lib"
  by (simp add: json_roundtrip_def toy_lib_def toy_parse_stringify)

lemma toy_parse_null: "parse toy_lib ''null'' = Some JNull"
  using toy_parse_stringify[of JNull] by (simp add: toy_lib_def)

lemma toy_lib_parse_stringify: "parse toy_lib (toy_stringify v) = Some v"
  by (simp add: toy_lib_def toy_parse_stringify)

lemma demo_repo_files:
  "files demo_repo IndexFile = Some (toy_stringify (JArr []))"
  "files demo_repo HeadFile = Some []"
  "files demo_repo (resolve toy_lib ''a.txt'') = Some ''hello''"
  "files demo_repo (resolve toy_lib ''b.txt'') = Some ''world''"
  "files demo_repo (resolve toy_lib ''c.txt'') = None"
  "files demo_repo (ObjectFile k) = None"
  "out demo_repo = []"
  by (simp_all add: demo_repo_def init_def fresh_def writeFile_def toy_lib_def toy_resolve_def Let_def)

section \<open>What the methods do to the files\<close>

lemma getCurrentHead_files:
  "getCurrentHead s = (case files s HeadFile of None \<Rightarrow> JNull | Some t \<Rightarrow> JStr t)"
  by (simp add: getCurrentHead_def readFile_def split: option.splits)

lemma updateStagingArea_objects:
  "files (snd (updateStagingArea L p h s)) (ObjectFile k) = files s (ObjectFile k)"
  by (auto simp: updateStagingArea_def readFile_def writeFile_def split: option.splits json.splits)

lemma add_success:
  assumes "files s (resolve L p) = Some b"
    and "files s IndexFile = Some t" and "parse L t = Some (JArr index)"
  shows "add L p s =
           (Inr (), s\<lparr>files := (files s)(ObjectFile (hashObject L b) \<mapsto> b,
                        IndexFile \<mapsto> stringify L (JArr (index @ [file_entry p (hashObject L b)]))),
                      out := out s @ [LogAdded p]\<rparr>)"
  using assms
  by (simp add: add_def updateStagingArea_def readFile_def writeFile_def console_log_def Let_def)

lemma commit_success:
  assumes "files s IndexFile = Some t" and "parse L t = Some index"
  shows "commit L timestamp message s =
           (Inr (), s\<lparr>files := (files s)
                        (ObjectFile (hashObject L (stringify L (commitData timestamp message index (getCurrentHead s))))
                           \<mapsto> stringify L (commitData timestamp message index (getCurrentHead s)),
                         HeadFile \<mapsto> hashObject L (stringify L (commitData timestamp message index (getCurrentHead s))),
                         IndexFile \<mapsto> stringify L (JArr [])),
                      out := out s @ [LogCommitted (hashObject L (stringify L (commitData timestamp message index (getCurrentHead s))))]\<rparr>)"
  using assms
  by (simp add: commit_def readFile_def writeFile_def console_log_def Let_def getCurrentHead_def)

section \<open>The sample histories\<close>

lemma toy_resolve_work:
  "resolve toy_lib ''a.txt'' = OtherFile ''a.txt''"
  "resolve toy_lib ''b.txt'' = OtherFile ''b.txt''"
  by (simp_all add: toy_lib_def toy_resolve_def)

lemma demo_first_files:
  "files demo_first IndexFile = Some (toy_stringify (JArr []))"
  "getCurrentHead demo_first = JStr (hashObject toy_lib (stringify toy_lib
      (commitData ''2026-01-01T00:00:00.000Z'' ''first''
         (JArr [file_entry ''a.txt'' (hashObject toy_lib ''hello'')]) (JStr []))))"
  "files demo_first (resolve toy_lib ''b.txt'') = Some ''world''"
  "files demo_first (ObjectFile (hashObject toy_lib (stringify toy_lib
      (commitData ''2026-01-01T00:00:00.000Z'' ''first''
         (JArr [file_entry ''a.txt'' (hashObject toy_lib ''hello'')]) (JStr [])))))
     = Some (stringify toy_lib (commitData ''2026-01-01T00:00:00.000Z'' ''first''
         (JArr [file_entry ''a.txt'' (hashObject toy_lib ''hello'')]) (JStr [])))"
  "files demo_first (ObjectFile (hashObject toy_lib ''hello'')) = Some ''hello''"
proof -
  note a = add_success[OF demo_repo_files(3) demo_repo_files(1) toy_lib_parse_stringify]
  define s1 where "s1 = snd (add toy_lib ''a.txt'' demo_repo)"
  have i1: "files s1 IndexFile = Some (stringify toy_lib (JArr ([] @ [file_entry ''a.txt'' (hashObject toy_lib ''hello'')])))"
    and h1: "getCurrentHead s1 = JStr []"
    and b1: "files s1 (resolve toy_lib ''b.txt'') = Some ''world''"
    and o1: "files s1 (ObjectFile (hashObject toy_lib ''hello'')) = Some ''hello''"
    unfolding s1_def a
    using demo_repo_files(4)
    by (simp_all add: getCurrentHead_files demo_repo_files(2) toy_resolve_work)
  have p1: "parse toy_lib (stringify toy_lib (JArr ([] @ [file_entry ''a.txt'' (hashObject toy_lib ''hello'')])))
            = Some (JArr [file_entry ''a.txt'' (hashObject toy_lib ''hello'')])"
    using toy_lib_roundtrip by (simp add: json_roundtrip_def)
  note c = commit_success[OF i1 p1, of "''2026-01-01T00:00:00.000Z''" "''first''"]
  have d: "demo_first = snd (commit toy_lib ''2026-01-01T00:00:00.000Z'' ''first'' s1)"
    by (simp add: demo_first_def s1_def)
  show "files demo_first IndexFile = Some (toy_stringify (JArr []))"
    unfolding d c by (simp add: toy_lib_def)
  show "getCurrentHead demo_first = JStr (hashObject toy_lib (stringify toy_lib
      (commitData ''2026-01-01T00:00:00.000Z'' ''first''
         (JArr [file_entry ''a.txt'' (hashObject toy_lib ''hello'')]) (JStr []))))"
    unfolding d c h1 by (simp add: getCurrentHead_files)
  show "files demo_first (resolve toy_lib ''b.txt'') = Some ''world''"
    unfolding d c using b1 by (simp add: toy_resolve_work)
  show "files demo_first (ObjectFile (hashObject toy_lib (stringify toy_lib
      (commitData ''2026-01-01T00:00:00.000Z'' ''first''
         (JArr [file_entry ''a.txt'' (hashObject toy_lib ''hello'')]) (JStr [])))))
     = Some (stringify toy_lib (commitData ''2026-01-01T00:00:00.000Z'' ''first''
         (JArr [file_entry ''a.txt'' (hashObject toy_lib ''hello'')]) (JStr [])))"
    unfolding d c h1 by simp
  show "files demo_first (ObjectFile (hashObject toy_lib ''hello'')) = Some ''hello''"
    unfolding d c h1 using o1
    by (simp add: hashObject_def toy_lib_def toy_sha1_def commitData_def)
qed


lemma demo_first_summary:
  "files demo_first IndexFile = Some (toy_stringify (JArr []))"
  "getCurrentHead demo_first = JStr demo_h1"
  "files demo_first (resolve toy_lib ''b.txt'') = Some ''world''"
  "files demo_first (ObjectFile demo_h1) = Some (stringify toy_lib demo_cd1)"
  "files demo_first (ObjectFile (hashObject toy_lib ''hello'')) = Some ''hello''"
  using demo_first_files by (simp_all add: demo_h1_def demo_cd1_def entries_def)

lemma demo_first_head: "files demo_first HeadFile = Some demo_h1"
  using demo_first_summary(2) by (simp add: getCurrentHead_files split: option.splits)

lemma demo_second_files:
  "getCurrentHead demo_second = JStr (hashObject toy_lib (stringify toy_lib demo_cd2))"
  "files demo_second (ObjectFile demo_h1) = Some (stringify toy_lib demo_cd1)"
  "files demo_second (ObjectFile (hashObject toy_lib ''hello'')) = Some ''hello''"
  "files demo_second (ObjectFile (hashObject toy_lib ''world'')) = Some ''world''"
proof -
  note a = add_success[OF demo_first_summary(3) demo_first_summary(1) toy_lib_parse_stringify]
  define s1 where "s1 = snd (add toy_lib ''b.txt'' demo_first)"
  have ne0: "hashObject toy_lib ''hello'' \<noteq> hashObject toy_lib ''world''"
    "demo_h1 \<noteq> hashObject toy_lib ''world''"
    by (simp_all add: demo_h1_def demo_cd1_def hashObject_def toy_lib_def toy_sha1_def
        commitData_def)
  have i1: "files s1 IndexFile = Some (stringify toy_lib (JArr ([] @ [file_entry ''b.txt'' (hashObject toy_lib ''world'')])))"
    and h1: "getCurrentHead s1 = JStr demo_h1"
    and o1: "files s1 (ObjectFile (hashObject toy_lib ''hello'')) = Some ''hello''"
    and o2: "files s1 (ObjectFile (hashObject toy_lib ''world'')) = Some ''world''"
    and o3: "files s1 (ObjectFile demo_h1) = Some (stringify toy_lib demo_cd1)"
    unfolding s1_def a
    using demo_first_summary(2,4,5) ne0
    by (simp_all add: getCurrentHead_files)
  have p1: "parse toy_lib (stringify toy_lib (JArr ([] @ [file_entry ''b.txt'' (hashObject toy_lib ''world'')])))
            = Some (entries [(''b.txt'', hashObject toy_lib ''world'')])"
    using toy_lib_roundtrip by (simp add: json_roundtrip_def entries_def)
  note c = commit_success[OF i1 p1, of "''2026-01-02T00:00:00.000Z''" "''second''"]
  have d: "demo_second = snd (commit toy_lib ''2026-01-02T00:00:00.000Z'' ''second'' s1)"
    by (simp add: demo_second_def s1_def)
  have ne: "hashObject toy_lib (stringify toy_lib demo_cd2) \<noteq> demo_h1"
    "hashObject toy_lib (stringify toy_lib demo_cd2) \<noteq> hashObject toy_lib ''hello''"
    "hashObject toy_lib (stringify toy_lib demo_cd2) \<noteq> hashObject toy_lib ''world''"
    by (simp_all add: demo_h1_def demo_cd1_def demo_cd2_def hashObject_def toy_lib_def
        toy_sha1_def commitData_def)
  show "getCurrentHead demo_second = JStr (hashObject toy_lib (stringify toy_lib demo_cd2))"
    unfolding d c h1 by (simp add: getCurrentHead_files demo_cd2_def)
  show "files demo_second (ObjectFile demo_h1) = Some (stringify toy_lib demo_cd1)"
    unfolding d c h1 demo_cd2_def[symmetric] using o3 ne by simp
  show "files demo_second (ObjectFile (hashObject toy_lib ''hello'')) = Some ''hello''"
    unfolding d c h1 demo_cd2_def[symmetric] using o1 ne by simp
  show "files demo_second (ObjectFile (hashObject toy_lib ''world'')) = Some ''world''"
    unfolding d c h1 demo_cd2_def[symmetric] using o2 ne by simp
qed

section \<open>Content addressing\<close>

lemma run_replacement: "utf8_run Start (replacement @ xs) = replacement @ utf8_run Start xs"
  by (simp add: replacement_def lead_def)

lemma lead_Inl: "lead c = Inl t \<Longrightarrow> utf8_run Start (t @ xs) = t @ utf8_run Start xs"
  by (auto simp: lead_def Let_def run_replacement split: if_splits)

lemma lead_Inr: "lead c = Inr st \<Longrightarrow> reach st"
  by (auto simp: reach_def lead_def Let_def split: if_splits)

lemma utf8_run_idem: "reach st \<Longrightarrow> utf8_run Start (utf8_run st xs) = utf8_run st xs"
proof (induction xs arbitrary: st)
  case Nil
  then show ?case
    using run_replacement[of "[]"] by (cases st) simp_all
next
  case (Cons c cs)
  have start: "utf8_run Start (case lead c of Inl t \<Rightarrow> t @ utf8_run Start cs | Inr st' \<Rightarrow> utf8_run st' cs)
                 = (case lead c of Inl t \<Rightarrow> t @ utf8_run Start cs | Inr st' \<Rightarrow> utf8_run st' cs)"
  proof (cases "lead c")
    case (Inl t)
    then show ?thesis
      using lead_Inl[OF Inl] Cons.IH[of Start] by (simp add: reach_def)
  next
    case (Inr st')
    then show ?thesis
      using Cons.IH[OF lead_Inr[OF Inr]] by simp
  qed
  show ?case
  proof (cases st)
    case Start
    then show ?thesis using start by simp
  next
    case (Cont n lo hi acc)
    have r: "\<And>xs. utf8_run Start (acc @ xs) = utf8_run (Cont n lo hi acc) xs"
      using Cons.prems Cont by (simp add: reach_def)
    show ?thesis
    proof (cases "lo \<le> (of_char c :: nat) \<and> (of_char c :: nat) \<le> hi")
      case False
      then show ?thesis
        using start Cont by (auto simp: run_replacement)
    next
      case True
      show ?thesis
      proof (cases "n = 1")
        case n: True
        have "utf8_run Start (acc @ c # utf8_run Start cs) = acc @ c # utf8_run Start (utf8_run Start cs)"
          using r[of "c # utf8_run Start cs"] True n by simp
        then show ?thesis
          using True n Cont Cons.IH[of Start] by (simp add: reach_def)
      next
        case n: False
        have "reach (Cont (n - 1) 0x80 0xBF (acc @ [c]))"
          unfolding reach_def using r True n by simp
        from Cons.IH[OF this] show ?thesis
          using True n Cont by simp
      qed
    qed
  qed
qed

lemma utf8_decode_idem: "utf8_decode (utf8_decode bs) = utf8_decode bs"
  unfolding utf8_decode_def by (rule utf8_run_idem) (simp add: reach_def)

lemma demo_mounted_files:
  "files demo_mounted = decoded demo_disk"
  "demo_disk (resolve toy_lib ''a.txt'') = Some ''hello''"
  "demo_disk (resolve toy_lib ''x.bin'') = Some [CHR 0xFF, CHR 0xFE, CHR 0x41]"
  by (simp_all add: demo_mounted_def demo_disk_def toy_lib_def toy_resolve_def)

lemma utf8_decode_samples:
  "utf8_decode ''hello'' = ''hello''"
  "utf8_decode [CHR 0xFF, CHR 0xFE, CHR 0x41]
     = [CHR 0xEF, CHR 0xBF, CHR 0xBD, CHR 0xEF, CHR 0xBF, CHR 0xBD, CHR 0x41]"
  by (simp_all add: utf8_decode_def lead_def replacement_def)

text \<open>
  Claim C1, as the code has it. \<open>hashObject\<close> is a function of its argument alone, and
  \<open>add\<close> gives it the text it read. When the file given to \<open>add\<close> holds the bytes \<open>b\<close>,
  then after \<open>add\<close> (even if the update of the index fails) \<open>getFileContent\<close> on the digest
  of the decoded text returns that text, the UTF-8 decoding of \<open>b\<close>, and what was stored
  reads back unchanged. The result is exactly \<open>b\<close> when \<open>b\<close> is well-formed UTF-8, that is
  when decoding leaves it as it is.
\<close>

theorem C1_content_addressing:
  assumes "files s = decoded d" and "d (resolve L p) = Some b"
  shows "getFileContent (Some (JStr (hashObject L (utf8_decode b)))) (snd (add L p s))
           = (Inr (utf8_decode b), snd (add L p s)) \<and>
         utf8_decode (utf8_decode b) = utf8_decode b \<and>
         (utf8_decode b = b \<longrightarrow>
            getFileContent (Some (JStr (hashObject L b))) (snd (add L p s))
              = (Inr b, snd (add L p s)))"
proof -
  have r: "files s (resolve L p) = Some (utf8_decode b)"
    using assms by (simp add: decoded_def)
  have "files (snd (add L p s)) (ObjectFile (hashObject L (utf8_decode b))) = Some (utf8_decode b)"
    using r updateStagingArea_objects[of L p "hashObject L (utf8_decode b)"
        "writeFile (ObjectFile (hashObject L (utf8_decode b))) (utf8_decode b) s"
        "hashObject L (utf8_decode b)"]
    by (auto simp: add_def readFile_def Let_def console_log_def writeFile_def
        split: prod.splits sum.splits)
  then have g: "getFileContent (Some (JStr (hashObject L (utf8_decode b)))) (snd (add L p s))
           = (Inr (utf8_decode b), snd (add L p s))"
    by (simp add: getFileContent_def readFile_def)
  show ?thesis
    using g utf8_decode_idem[of b] by auto
qed

theorem C1_content_addressing_witness:
  "files demo_mounted = decoded demo_disk \<and>
   demo_disk (resolve toy_lib ''a.txt'') = Some ''hello'' \<and>
   utf8_decode ''hello'' = ''hello'' \<and>
   getFileContent (Some (JStr (hashObject toy_lib ''hello''))) (snd (add toy_lib ''a.txt'' demo_mounted))
     = (Inr ''hello'', snd (add toy_lib ''a.txt'' demo_mounted))"
  using C1_content_addressing[OF demo_mounted_files(1) demo_mounted_files(2)]
    demo_mounted_files(1,2) utf8_decode_samples(1)
  by simp

text \<open>
  Claim C1 as stated fails: for a file of the three bytes \<open>FF FE 41\<close>, \<open>add\<close> stores and
  \<open>getFileContent\<close> returns the seven bytes \<open>EF BF BD EF BF BD 41\<close>, under the digest of
  those seven bytes; under the digest of the three bytes of the file there is no object.
\<close>

theorem C1_counterexample:
  "demo_disk (resolve toy_lib ''x.bin'') = Some [CHR 0xFF, CHR 0xFE, CHR 0x41] \<and>
   getFileContent
       (Some (JStr (hashObject toy_lib
          [CHR 0xEF, CHR 0xBF, CHR 0xBD, CHR 0xEF, CHR 0xBF, CHR 0xBD, CHR 0x41])))
       (snd (add toy_lib ''x.bin'' demo_mounted))
     = (Inr [CHR 0xEF, CHR 0xBF, CHR 0xBD, CHR 0xEF, CHR 0xBF, CHR 0xBD, CHR 0x41],
        snd (add toy_lib ''x.bin'' demo_mounted)) \<and>
   getFileContent (Some (JStr (hashObject toy_lib [CHR 0xFF, CHR 0xFE, CHR 0x41])))
       (snd (add toy_lib ''x.bin'' demo_mounted))
     = (Inl ReadError, snd (add toy_lib ''x.bin'' demo_mounted))"
proof -
  have r: "files demo_mounted (resolve toy_lib ''x.bin'')
             = Some [CHR 0xEF, CHR 0xBF, CHR 0xBD, CHR 0xEF, CHR 0xBF, CHR 0xBD, CHR 0x41]"
    using demo_mounted_files(3) utf8_decode_samples(2)
    by (simp add: demo_mounted_def decoded_def)
  have i: "files demo_mounted IndexFile = Some (toy_stringify (JArr []))"
    by (simp add: demo_mounted_def decoded_def demo_disk_def utf8_decode_def lead_def)
  note a = add_success[OF r i toy_lib_parse_stringify]
  show ?thesis
    unfolding a
    by (simp add: demo_mounted_files(3) getFileContent_def readFile_def hashObject_def
        toy_lib_def toy_sha1_def toy_resolve_def demo_mounted_def decoded_def demo_disk_def)
qed

section \<open>Staging\<close>

text \<open>
  Claim C2. Let the index hold any array \<open>index\<close>, let \<open>f1\<close> hold \<open>b1\<close> when it is added
  and \<open>f2\<close> hold \<open>b2\<close> when it is added. Then \<open>add f1; add f2; commit\<close> all succeed;
  afterwards the index file holds the empty array, and the head names the stored commit
  record, whose \<open>files\<close> are the former index followed by the entry of \<open>f1\<close> and then the
  entry of \<open>f2\<close>, each with the digest of its content at the time of \<open>add\<close>.
\<close>

theorem C2_staging_roundtrip:
  assumes "json_roundtrip L"
    and "files s IndexFile = Some t" and "parse L t = Some (JArr index)"
    and "files s (resolve L f1) = Some b1"
    and "s1 = snd (add L f1 s)"
    and "files s1 (resolve L f2) = Some b2"
    and "s2 = snd (add L f2 s1)"
    and "s3 = snd (commit L timestamp message s2)"
    and "cd = commitData timestamp message
                (JArr (index @ [file_entry f1 (hashObject L b1), file_entry f2 (hashObject L b2)]))
                (getCurrentHead s)"
    and "h = hashObject L (stringify L cd)"
  shows "add L f1 s = (Inr (), s1) \<and> add L f2 s1 = (Inr (), s2) \<and>
         commit L timestamp message s2 = (Inr (), s3) \<and>
         files s3 IndexFile = Some (stringify L (JArr [])) \<and>
         parse L (stringify L (JArr [])) = Some (JArr []) \<and>
         files s3 HeadFile = Some h \<and>
         files s3 (ObjectFile h) = Some (stringify L cd) \<and>
         parse L (stringify L cd) = Some cd"
proof -
  have rt: "\<And>v. parse L (stringify L v) = Some v"
    using assms(1) by (simp add: json_roundtrip_def)
  note a1 = add_success[OF assms(4) assms(2) assms(3)]
  have i1: "files s1 IndexFile = Some (stringify L (JArr (index @ [file_entry f1 (hashObject L b1)])))"
    using a1 assms(5) by simp
  note a2 = add_success[OF assms(6) i1 rt]
  have i2: "files s2 IndexFile =
      Some (stringify L (JArr ((index @ [file_entry f1 (hashObject L b1)])
                                @ [file_entry f2 (hashObject L b2)])))"
    using a2 assms(7) by simp
  note c = commit_success[OF i2 rt, of timestamp message]
  have hd: "getCurrentHead s2 = getCurrentHead s"
    using a1 a2 assms(5,7) by (simp add: getCurrentHead_files)
  show ?thesis
    using a1 a2 c assms(5,7,8,9,10) hd rt by simp
qed

theorem C2_staging_roundtrip_witness:
  "files (snd (commit toy_lib ''2026-01-01T00:00:00.000Z'' ''first''
          (snd (add toy_lib ''b.txt'' (snd (add toy_lib ''a.txt'' demo_repo)))))) IndexFile
     = Some (stringify toy_lib (JArr [])) \<and>
   files (snd (commit toy_lib ''2026-01-01T00:00:00.000Z'' ''first''
          (snd (add toy_lib ''b.txt'' (snd (add toy_lib ''a.txt'' demo_repo))))))
      (ObjectFile (hashObject toy_lib (stringify toy_lib
         (commitData ''2026-01-01T00:00:00.000Z'' ''first''
            (JArr [file_entry ''a.txt'' (hashObject toy_lib ''hello''),
                   file_entry ''b.txt'' (hashObject toy_lib ''world'')]) (JStr [])))))
     = Some (stringify toy_lib
         (commitData ''2026-01-01T00:00:00.000Z'' ''first''
            (JArr [file_entry ''a.txt'' (hashObject toy_lib ''hello''),
                   file_entry ''b.txt'' (hashObject toy_lib ''world'')]) (JStr [])))"
proof -
  have b: "files (snd (add toy_lib ''a.txt'' demo_repo)) (resolve toy_lib ''b.txt'') = Some ''world''"
    using add_success[OF demo_repo_files(3) demo_repo_files(1) toy_lib_parse_stringify]
    by (simp add: toy_lib_def toy_resolve_def demo_repo_def writeFile_def)
  have h: "getCurrentHead demo_repo = JStr []"
    by (simp add: getCurrentHead_files demo_repo_files)
  show ?thesis
    using C2_staging_roundtrip[OF toy_lib_roundtrip demo_repo_files(1) toy_lib_parse_stringify
        demo_repo_files(3) refl b refl refl refl refl, of "''2026-01-01T00:00:00.000Z''" "''first''"]
    by (simp add: h)
qed

text \<open>
  Claim C9. When the file given to \<open>add\<close> cannot be read, \<open>add\<close> throws the error of the
  read and the state, index and object store included, is as it was before the call.
\<close>

theorem C9_add_unreadable:
  assumes "files s (resolve L p) = None"
  shows "add L p s = (Inl ReadError, s)"
  using assms by (simp add: add_def readFile_def)

theorem C9_add_unreadable_witness:
  "files demo_repo (resolve toy_lib ''c.txt'') = None \<and>
   add toy_lib ''c.txt'' demo_repo = (Inl ReadError, demo_repo)"
  using C9_add_unreadable[OF demo_repo_files(5)] demo_repo_files(5) by blast

text \<open>
  Claim C6. When two files hold the same content \<open>b\<close> at the time each is added, the
  second \<open>add\<close> leaves every object file as the first left it, so the store holds the one
  blob of \<open>b\<close> under the digest of \<open>b\<close>; both entries appended to the index carry that
  digest, and it resolves to \<open>b\<close>.
\<close>

theorem C6_deduplication:
  assumes "json_roundtrip L"
    and "files s IndexFile = Some t" and "parse L t = Some (JArr index)"
    and "files s (resolve L p1) = Some b"
    and "s1 = snd (add L p1 s)"
    and "files s1 (resolve L p2) = Some b"
    and "s2 = snd (add L p2 s1)"
  shows "add L p1 s = (Inr (), s1) \<and> add L p2 s1 = (Inr (), s2) \<and>
         (\<forall>k. files s2 (ObjectFile k) = files s1 (ObjectFile k)) \<and>
         files s2 IndexFile =
           Some (stringify L (JArr (index @ [file_entry p1 (hashObject L b),
                                            file_entry p2 (hashObject L b)]))) \<and>
         getFileContent (Some (JStr (hashObject L b))) s2 = (Inr b, s2)"
proof -
  have rt: "\<And>v. parse L (stringify L v) = Some v"
    using assms(1) by (simp add: json_roundtrip_def)
  note a1 = add_success[OF assms(4) assms(2) assms(3)]
  have i1: "files s1 IndexFile = Some (stringify L (JArr (index @ [file_entry p1 (hashObject L b)])))"
    using a1 assms(5) by simp
  note a2 = add_success[OF assms(6) i1 rt]
  have o1: "files s1 (ObjectFile (hashObject L b)) = Some b"
    using a1 assms(5) by simp
  show ?thesis
    using a1 a2 assms(5,7) o1
    by (auto simp: getFileContent_def readFile_def)
qed

theorem C6_deduplication_witness:
  "(\<forall>k. files (snd (add toy_lib ''c.txt'' (snd (add toy_lib ''a.txt'' demo_copy)))) (ObjectFile k)
        = files (snd (add toy_lib ''a.txt'' demo_copy)) (ObjectFile k)) \<and>
   files (snd (add toy_lib ''c.txt'' (snd (add toy_lib ''a.txt'' demo_copy)))) IndexFile =
     Some (stringify toy_lib (JArr [file_entry ''a.txt'' (hashObject toy_lib ''hello''),
                                    file_entry ''c.txt'' (hashObject toy_lib ''hello'')])) \<and>
   getFileContent (Some (JStr (hashObject toy_lib ''hello'')))
       (snd (add toy_lib ''c.txt'' (snd (add toy_lib ''a.txt'' demo_copy))))
     = (Inr ''hello'', snd (add toy_lib ''c.txt'' (snd (add toy_lib ''a.txt'' demo_copy))))"
proof -
  have f: "files demo_copy IndexFile = Some (toy_stringify (JArr []))"
    "files demo_copy (resolve toy_lib ''a.txt'') = Some ''hello''"
    using demo_repo_files(1,3)
    by (simp_all add: demo_copy_def writeFile_def toy_resolve_work)
  have c: "files (snd (add toy_lib ''a.txt'' demo_copy)) (resolve toy_lib ''c.txt'') = Some ''hello''"
    unfolding add_success[OF f(2) f(1) toy_lib_parse_stringify]
    by (simp add: demo_copy_def writeFile_def toy_lib_def toy_resolve_def)
  show ?thesis
    using C6_deduplication[OF toy_lib_roundtrip f(1) toy_lib_parse_stringify f(2) refl c refl]
    by simp
qed

section \<open>The commit chain\<close>

lemma committed_append: "committed (xs @ ys) = committed xs @ committed ys"
  by (induction xs rule: committed.induct) auto

lemma commits_append:
  "commits L (cs @ ds) s =
     (case commits L cs s of (Inl e, s1) \<Rightarrow> (Inl e, s1) | (Inr u, s1) \<Rightarrow> commits L ds s1)"
  by (induction cs arbitrary: s) (auto split: prod.splits sum.splits)

lemma chain_preserved:
  "chain L fs ch \<Longrightarrow> \<forall>h \<in> fst ` set ch. fs' (ObjectFile h) = fs (ObjectFile h) \<Longrightarrow> chain L fs' ch"
  by (induction ch) auto

lemma chain_root:
  "chain L fs (ch @ [(h, timestamp, message)]) \<Longrightarrow>
   fs (ObjectFile h) = Some (stringify L (commitData timestamp message (JArr []) (JStr [])))"
proof (induction ch)
  case Nil
  then show ?case by simp
next
  case (Cons c ch)
  then show ?case by (cases c) simp
qed

lemma walk_chain:
  assumes "json_roundtrip L"
  shows "chain L (files s) ch \<Longrightarrow>
         walk L (Some (JStr (chain_top ch))) s = Some (Inr (), s\<lparr>out := out s @ log_lines ch\<rparr>)"
proof (induction ch arbitrary: s)
  case Nil
  show ?case by (subst walk.simps) simp
next
  case (Cons c ch)
  obtain h ts m where c: "c = (h, ts, m)" by (cases c)
  let ?cd = "commitData ts m (JArr []) (JStr (chain_top ch))"
  let ?s1 = "console_log (LogCommit h (Some (JStr ts)) (Some (JStr m))) (console_log (Log separator) s)"
  have h: "h \<noteq> []" and f: "files s (ObjectFile h) = Some (stringify L ?cd)"
    and ch: "chain L (files ?s1) ch"
    using Cons.prems c by (simp_all add: console_log_def)
  have p: "parse L (stringify L ?cd) = Some ?cd"
    using assms by (simp add: json_roundtrip_def)
  have "walk L (Some (JStr h)) s = walk L (Some (JStr (chain_top ch))) ?s1"
    by (subst walk.simps) (simp add: h f p, simp add: commitData_def)
  also have "\<dots> = Some (Inr (), ?s1\<lparr>out := out ?s1 @ log_lines ch\<rparr>)"
    by (rule Cons.IH[OF ch])
  finally show ?case by (simp add: c console_log_def)
qed

lemma init_fresh:
  assumes "files s0 HeadFile = None" and "files s0 IndexFile = None"
  shows "init L s0 = s0\<lparr>files := (files s0)(HeadFile \<mapsto> [], IndexFile \<mapsto> stringify L (JArr []))\<rparr>"
  using assms by (simp add: init_def writeFile_def Let_def)

lemma commits_invariant:
  assumes rt: "json_roundtrip L"
    and fresh: "files s0 HeadFile = None" "files s0 IndexFile = None" "out s0 = []"
  shows "\<exists>sN. commits L cs (init L s0) = (Inr (), sN) \<and>
           files sN IndexFile = Some (stringify L (JArr [])) \<and>
           length (committed (out sN)) = length cs \<and>
           files sN HeadFile = Some (chain_top (rev (zip (committed (out sN)) cs))) \<and>
           (distinct (committed (out sN)) \<and> [] \<notin> set (committed (out sN))
              \<longrightarrow> chain L (files sN) (rev (zip (committed (out sN)) cs)))"
proof (induction cs rule: rev_induct)
  case Nil
  show ?case using fresh by (simp add: init_fresh)
next
  case (snoc c cs)
  obtain ts m where c: "c = (ts, m)" by (cases c)
  from snoc obtain sN where run: "commits L cs (init L s0) = (Inr (), sN)"
    and idx: "files sN IndexFile = Some (stringify L (JArr []))"
    and len: "length (committed (out sN)) = length cs"
    and hd: "files sN HeadFile = Some (chain_top (rev (zip (committed (out sN)) cs)))"
    and chn: "distinct (committed (out sN)) \<and> [] \<notin> set (committed (out sN))
              \<longrightarrow> chain L (files sN) (rev (zip (committed (out sN)) cs))"
    by blast
  define hs where "hs = committed (out sN)"
  define ch where "ch = rev (zip hs cs)"
  define cd where "cd = commitData ts m (JArr []) (JStr (chain_top ch))"
  define h where "h = hashObject L (stringify L cd)"
  define s' where "s' = sN\<lparr>files := (files sN)(ObjectFile h \<mapsto> stringify L cd, HeadFile \<mapsto> h,
                                     IndexFile \<mapsto> stringify L (JArr [])),
                 out := out sN @ [LogCommitted h]\<rparr>"
  have p: "parse L (stringify L (JArr [])) = Some (JArr [])"
    using rt by (simp add: json_roundtrip_def)
  have gh: "getCurrentHead sN = JStr (chain_top ch)"
    by (simp add: getCurrentHead_files hd ch_def hs_def)
  have cm: "commit L ts m sN = (Inr (), s')"
    using commit_success[OF idx p, of ts m] by (simp add: gh s'_def h_def cd_def)
  have run': "commits L (cs @ [c]) (init L s0) = (Inr (), s')"
    by (simp add: commits_append run c cm)
  have hs': "committed (out s') = hs @ [h]"
    by (simp add: committed_append s'_def hs_def)
  have zp: "rev (zip (committed (out s')) (cs @ [c])) = (h, ts, m) # ch"
    using len by (simp add: hs' c ch_def hs_def)
  have fs: "files s' IndexFile = Some (stringify L (JArr []))" "files s' HeadFile = Some h"
    "files s' (ObjectFile h) = Some (stringify L cd)"
    "\<And>k. k \<noteq> h \<Longrightarrow> files s' (ObjectFile k) = files sN (ObjectFile k)"
    by (simp_all add: s'_def)
  have chn': "chain L (files s') (rev (zip (committed (out s')) (cs @ [c])))"
    if d: "distinct (committed (out s')) \<and> [] \<notin> set (committed (out s'))"
  proof -
    have d1: "distinct hs" "[] \<notin> set hs" "h \<notin> set hs" "h \<noteq> []"
      using d unfolding hs' by auto
    have old: "chain L (files sN) ch" using chn d1 by (simp add: ch_def hs_def)
    have "\<forall>k \<in> fst ` set ch. files s' (ObjectFile k) = files sN (ObjectFile k)"
    proof
      fix k assume "k \<in> fst ` set ch"
      then have "k \<in> set hs" by (auto simp: ch_def dest: set_zip_leftD)
      then have "k \<noteq> h" using d1 by auto
      then show "files s' (ObjectFile k) = files sN (ObjectFile k)" by (rule fs(4))
    qed
    from chain_preserved[OF old this] have new: "chain L (files s') ch" .
    show ?thesis unfolding zp chain.simps cd_def[symmetric] using d1(4) fs(3) new by blast
  qed
  have l': "length (committed (out s')) = length (cs @ [c])"
    using len by (simp add: hs' hs_def)
  have h': "files s' HeadFile = Some (chain_top (rev (zip (committed (out s')) (cs @ [c]))))"
    unfolding zp using fs(2) by simp
  show ?case
    using run' fs(1) l' h' chn' by blast
qed

text \<open>
  Claim C3, as the code has it. In a freshly initialised repository (no head file and no
  index file before \<open>init\<close>, nothing printed yet) every call of a non-empty sequence of
  \<open>commit\<close> calls succeeds. If the hashes of the commits created are non-empty and
  pairwise distinct, \<open>log\<close> returns, and it prints the created commits newest first, each
  exactly once, ending with the first one. The \<open>parent\<close> field stored in that root commit
  is the empty string, the content of the head file that \<open>init\<close> wrote; it is not \<open>null\<close>.
\<close>

theorem C3_chain_integrity:
  assumes "json_roundtrip L"
    and "files s0 HeadFile = None" and "files s0 IndexFile = None" and "out s0 = []"
    and "cs \<noteq> []"
    and "sN = snd (commits L cs (init L s0))"
    and "hs = committed (out sN)"
    and "distinct hs" and "[] \<notin> set hs"
  shows "commits L cs (init L s0) = (Inr (), sN) \<and> length hs = length cs \<and>
         log L sN = Some (Inr (), sN\<lparr>out := out sN @ log_lines (rev (zip hs cs))\<rparr>) \<and>
         stored_parent L (hd hs) sN = Inr (Some (JStr []))"
proof -
  from commits_invariant[OF assms(1-4), of cs] assms(6-9)
  have run: "commits L cs (init L s0) = (Inr (), sN)"
    and len: "length hs = length cs"
    and hd: "files sN HeadFile = Some (chain_top (rev (zip hs cs)))"
    and chn: "chain L (files sN) (rev (zip hs cs))"
    by auto
  have lg: "log L sN = Some (Inr (), sN\<lparr>out := out sN @ log_lines (rev (zip hs cs))\<rparr>)"
    using walk_chain[OF assms(1) chn] by (simp add: log_def getCurrentHead_files hd)
  obtain ts m rest where cs: "cs = (ts, m) # rest"
    using assms(5) by (cases cs) auto
  obtain h hs' where hs: "hs = h # hs'"
    using len cs by (cases hs) auto
  have "chain L (files sN) (rev (zip hs' rest) @ [(h, ts, m)])"
    using chn by (simp add: cs hs)
  from chain_root[OF this]
  have "files sN (ObjectFile h) = Some (stringify L (commitData ts m (JArr []) (JStr [])))" .
  moreover have "parse L (stringify L (commitData ts m (JArr []) (JStr [])))
                   = Some (commitData ts m (JArr []) (JStr []))"
    using assms(1) by (simp add: json_roundtrip_def)
  ultimately have "stored_parent L (hd hs) sN = Inr (Some (JStr []))"
    by (simp add: stored_parent_def hs, simp add: commitData_def)
  with run len lg show ?thesis by blast
qed

lemma demo_history_committed:
  "committed (out demo_history) =
     [hashObject toy_lib (stringify toy_lib
        (commitData ''2026-01-01T00:00:00.000Z'' ''first'' (JArr []) (JStr []))),
      hashObject toy_lib (stringify toy_lib
        (commitData ''2026-01-02T00:00:00.000Z'' ''second'' (JArr [])
          (JStr (hashObject toy_lib (stringify toy_lib
             (commitData ''2026-01-01T00:00:00.000Z'' ''first'' (JArr []) (JStr [])))))))]"
proof -
  have i0: "files (init toy_lib fresh) IndexFile = Some (toy_stringify (JArr []))"
    and h0: "getCurrentHead (init toy_lib fresh) = JStr []"
    and o0: "out (init toy_lib fresh) = []"
    by (simp_all add: init_def fresh_def writeFile_def Let_def toy_lib_def getCurrentHead_files)
  note c1 = commit_success[OF i0 toy_lib_parse_stringify, of "''2026-01-01T00:00:00.000Z''" "''first''"]
  define s1 where "s1 = snd (commit toy_lib ''2026-01-01T00:00:00.000Z'' ''first'' (init toy_lib fresh))"
  have i1: "files s1 IndexFile = Some (toy_stringify (JArr []))"
    unfolding s1_def c1 by (simp add: toy_lib_def)
  have h1: "getCurrentHead s1 = JStr (hashObject toy_lib (stringify toy_lib
        (commitData ''2026-01-01T00:00:00.000Z'' ''first'' (JArr []) (JStr []))))"
    unfolding s1_def c1 h0 by (simp add: getCurrentHead_files)
  have o1: "out s1 = [LogCommitted (hashObject toy_lib (stringify toy_lib
        (commitData ''2026-01-01T00:00:00.000Z'' ''first'' (JArr []) (JStr []))))]"
    unfolding s1_def c1 h0 by (simp add: o0)
  note c2 = commit_success[OF i1 toy_lib_parse_stringify, of "''2026-01-02T00:00:00.000Z''" "''second''"]
  have dh: "demo_history = snd (commit toy_lib ''2026-01-02T00:00:00.000Z'' ''second'' s1)"
    unfolding demo_history_def demo_commits_def s1_def
    by (simp add: c1 split: prod.splits sum.splits)
  show ?thesis
    unfolding dh c2 by (simp add: o1 h1)
qed

theorem C3_chain_integrity_witness:
  "distinct (committed (out demo_history)) \<and> [] \<notin> set (committed (out demo_history)) \<and>
   commits toy_lib demo_commits (init toy_lib fresh) = (Inr (), demo_history) \<and>
   log toy_lib demo_history =
     Some (Inr (), demo_history\<lparr>out := out demo_history
              @ log_lines (rev (zip (committed (out demo_history)) demo_commits))\<rparr>) \<and>
   stored_parent toy_lib (hd (committed (out demo_history))) demo_history = Inr (Some (JStr []))"
proof -
  have d: "distinct (committed (out demo_history))" "[] \<notin> set (committed (out demo_history))"
    unfolding demo_history_committed
    by (simp_all add: hashObject_def toy_lib_def toy_sha1_def commitData_def)
  have f: "files fresh HeadFile = None" "files fresh IndexFile = None" "out fresh = []"
    "demo_commits \<noteq> []"
    by (simp_all add: fresh_def demo_commits_def)
  show ?thesis
    using C3_chain_integrity[OF toy_lib_roundtrip f demo_history_def refl d] d
    by blast
qed

text \<open>
  Claim C3 as stated fails: after \<open>init\<close> and one \<open>commit\<close> the record that the head names,
  the root commit, has the empty string as stored parent, not \<open>null\<close>.
\<close>

theorem C3_counterexample:
  "head_parent toy_lib (snd (commit toy_lib ''2026-01-01T00:00:00.000Z'' ''first'' (init toy_lib fresh)))
     = Inr (Some (JStr [])) \<and>
   head_parent toy_lib (snd (commit toy_lib ''2026-01-01T00:00:00.000Z'' ''first'' (init toy_lib fresh)))
     \<noteq> Inr (Some JNull)"
proof -
  have i0: "files (init toy_lib fresh) IndexFile = Some (toy_stringify (JArr []))"
    and h0: "getCurrentHead (init toy_lib fresh) = JStr []"
    by (simp_all add: init_def fresh_def writeFile_def Let_def toy_lib_def getCurrentHead_files)
  note c1 = commit_success[OF i0 toy_lib_parse_stringify, of "''2026-01-01T00:00:00.000Z''" "''first''"]
  have "head_parent toy_lib (snd (commit toy_lib ''2026-01-01T00:00:00.000Z'' ''first'' (init toy_lib fresh)))
     = Inr (Some (JStr []))"
    unfolding c1 h0
    by (simp add: head_parent_def stored_parent_def toy_lib_parse_stringify[unfolded toy_lib_def, simplified] toy_lib_def del: toy_stringify.simps, simp add: commitData_def)
  then show ?thesis by simp
qed

section \<open>Showing a commit\<close>

lemma find_file_absent:
  "path \<notin> fst ` set pes \<Longrightarrow>
   find_file (map (\<lambda>(p, h). file_entry p h) pes) (Some (JStr path)) = Inr None"
  by (induction pes) (auto simp: file_entry_def)

lemma show_file_first:
  assumes "getprop (Some cd) ''parent'' = Inr parent" and "\<not> truthy parent"
    and "files s (ObjectFile h) = Some c"
  shows "show_file L cd (file_entry p h) s =
           (Inr (), s\<lparr>out := out s @ [LogFile (Some (JStr p)), Log c, Log ''First commit'']\<rparr>)"
  using assms
  by (simp add: show_file_def file_entry_def getFileContent_def readFile_def console_log_def Let_def)

lemma show_files_first:
  assumes "getprop (Some cd) ''parent'' = Inr parent" and "\<not> truthy parent"
    and "\<forall>(p, h, c) \<in> set fes. files s (ObjectFile h) = Some c"
  shows "show_files L cd (map (\<lambda>(p, h). file_entry p h) (drop_content fes)) s =
           (Inr (), s\<lparr>out := out s @ first_commit_lines fes\<rparr>)"
  using assms(3)
proof (induction fes arbitrary: s)
  case Nil
  then show ?case by (simp add: drop_content_def)
next
  case (Cons fe fes)
  obtain p h c where fe: "fe = (p, h, c)" by (cases fe)
  have c: "files s (ObjectFile h) = Some c" using Cons.prems fe by simp
  let ?s1 = "s\<lparr>out := out s @ [LogFile (Some (JStr p)), Log c, Log ''First commit'']\<rparr>"
  have "\<forall>(p, h, c) \<in> set fes. files ?s1 (ObjectFile h) = Some c"
    using Cons.prems by auto
  from Cons.IH[OF this] show ?case
    using show_file_first[OF assms(1) assms(2) c, of L p]
    by (simp add: fe drop_content_def)
qed

text \<open>
  Claim C7. First part: let the commit have a parent (its \<open>parent\<close> is a non-empty string
  naming a stored record whose \<open>files\<close> are FileEntry values), and let the path of a
  FileEntry of the commit not occur among the parent's paths. Then the loop body of \<open>show\<close>
  prints the file's name, its content and the marker \<open>New file in this commit\<close>, and
  nothing else: no diff is computed or printed. Second part: when the commit has no parent
  (its \<open>parent\<close> is falsy), \<open>show\<close> prints for every file its name, its content and the
  marker \<open>First commit\<close>, and no diff.
\<close>

theorem C7_show_markers:
  "(getprop (Some cd) ''parent'' = Inr (Some (JStr ph)) \<and> ph \<noteq> [] \<and>
    files s (ObjectFile ph) = Some pt \<and> parse L pt = Some pcd \<and>
    getprop (Some pcd) ''files'' = Inr (Some (entries pes)) \<and>
    files s (ObjectFile h) = Some content \<and> path \<notin> fst ` set pes
    \<longrightarrow> show_file L cd (file_entry path h) s =
          (Inr (), s\<lparr>out := out s @ [LogFile (Some (JStr path)), Log content,
                                         Log ''New file in this commit'']\<rparr>))
   \<and>
   (files s (ObjectFile ch) = Some ct \<and> parse L ct = Some rcd \<and>
    rcd = commitData timestamp message (entries (drop_content fes)) parent \<and>
    \<not> truthy (Some parent) \<and>
    (\<forall>(p, h, c) \<in> set fes. files s (ObjectFile h) = Some c)
    \<longrightarrow> showCommitDiff L ch s =
          (Inr (), s\<lparr>out := out s @ Log ''Changes in the last commit are: ''
                                       # first_commit_lines fes\<rparr>))"
proof (intro conjI impI)
  assume a: "getprop (Some cd) ''parent'' = Inr (Some (JStr ph)) \<and> ph \<noteq> [] \<and>
    files s (ObjectFile ph) = Some pt \<and> parse L pt = Some pcd \<and>
    getprop (Some pcd) ''files'' = Inr (Some (entries pes)) \<and>
    files s (ObjectFile h) = Some content \<and> path \<notin> fst ` set pes"
  then have "find_file (map (\<lambda>(p, h). file_entry p h) pes) (Some (JStr path)) = Inr None"
    by (simp add: find_file_absent)
  with a show "show_file L cd (file_entry path h) s =
          (Inr (), s\<lparr>out := out s @ [LogFile (Some (JStr path)), Log content,
                                         Log ''New file in this commit'']\<rparr>)"
    by (simp add: show_file_def file_entry_def getFileContent_def readFile_def console_log_def
        Let_def getCommitData_def JSON_parse_def getParentFileContent_def entries_def)
next
  assume b: "files s (ObjectFile ch) = Some ct \<and> parse L ct = Some rcd \<and>
    rcd = commitData timestamp message (entries (drop_content fes)) parent \<and>
    \<not> truthy (Some parent) \<and>
    (\<forall>(p, h, c) \<in> set fes. files s (ObjectFile h) = Some c)"
  let ?s2 = "console_log (Log ''Changes in the last commit are: '') s"
  have p: "getprop (Some rcd) ''parent'' = Inr (Some parent)"
    using b by (simp add: commitData_def)
  have "\<forall>(p, h, c) \<in> set fes. files ?s2 (ObjectFile h) = Some c"
    using b by (simp add: console_log_def)
  from show_files_first[OF p _ this, of L] b
  have "show_files L rcd (map (\<lambda>(p, h). file_entry p h) (drop_content fes)) ?s2 =
           (Inr (), ?s2\<lparr>out := out ?s2 @ first_commit_lines fes\<rparr>)"
    by simp
  moreover have "truthy (Some rcd)" using b by (simp add: commitData_def)
  moreover have "getprop (Some rcd) ''files''
      = Inr (Some (JArr (map (\<lambda>(p, h). file_entry p h) (drop_content fes))))"
    using b by (simp add: commitData_def entries_def)
  ultimately show "showCommitDiff L ch s =
          (Inr (), s\<lparr>out := out s @ Log ''Changes in the last commit are: ''
                                       # first_commit_lines fes\<rparr>)"
    using b
    by (simp add: showCommitDiff_def getCommitData_def readFile_def JSON_parse_def Let_def
        console_log_def)
qed

theorem C7_show_markers_witness:
  "show_file toy_lib demo_cd2 (file_entry ''b.txt'' (hashObject toy_lib ''world'')) demo_second =
     (Inr (), demo_second\<lparr>out := out demo_second @
        [LogFile (Some (JStr ''b.txt'')), Log ''world'', Log ''New file in this commit'']\<rparr>) \<and>
   showCommitDiff toy_lib demo_h1 demo_second =
     (Inr (), demo_second\<lparr>out := out demo_second @ Log ''Changes in the last commit are: ''
        # first_commit_lines [(''a.txt'', hashObject toy_lib ''hello'', ''hello'')]\<rparr>)"
proof -
  have ne: "demo_h1 \<noteq> []"
    by (simp add: demo_h1_def hashObject_def toy_lib_def toy_sha1_def)
  have a: "getprop (Some demo_cd2) ''parent'' = Inr (Some (JStr demo_h1))"
    "getprop (Some demo_cd1) ''files'' = Inr (Some (entries [(''a.txt'', hashObject toy_lib ''hello'')]))"
    by (simp_all add: demo_cd2_def demo_cd1_def commitData_def)
  have p: "parse toy_lib (stringify toy_lib demo_cd1) = Some demo_cd1"
    using toy_lib_roundtrip by (simp add: json_roundtrip_def)
  have b: "demo_cd1 = commitData ''2026-01-01T00:00:00.000Z'' ''first''
             (entries (drop_content [(''a.txt'', hashObject toy_lib ''hello'', ''hello'')])) (JStr [])"
    by (simp add: demo_cd1_def drop_content_def)
  have c: "\<forall>(p, h, c) \<in> set [(''a.txt'', hashObject toy_lib ''hello'', ''hello'')].
             files demo_second (ObjectFile h) = Some c"
    using demo_second_files(3) by simp
  have n: "''b.txt'' \<notin> fst ` set [(''a.txt'', hashObject toy_lib ''hello'')]"
    by simp
  show ?thesis
    using C7_show_markers[of demo_cd2 demo_h1 demo_second "stringify toy_lib demo_cd1" toy_lib
        demo_cd1 "[(''a.txt'', hashObject toy_lib ''hello'')]" "hashObject toy_lib ''world''"
        "''world''" "''b.txt''" demo_h1 "stringify toy_lib demo_cd1" demo_cd1
        "''2026-01-01T00:00:00.000Z''" "''first''"
        "[(''a.txt'', hashObject toy_lib ''hello'', ''hello'')]" "JStr []"]
      ne a p b c n demo_second_files(2,4)
    by (simp del: first_commit_lines.simps)
qed

text \<open>
  Claim C5. When no object is stored under \<open>h\<close> (and \<open>JSON.parse\<close> reads the text \<open>null\<close>
  as \<open>null\<close>), \<open>showCommitDiff h\<close> returns without throwing; it prints the failure of the
  read and \<open>Commit not found\<close>, nothing for any file, and leaves every file as it was.
\<close>

theorem C5_show_missing:
  assumes "files s (ObjectFile h) = None" and "parse L ''null'' = Some JNull"
  shows "showCommitDiff L h s =
           (Inr (), s\<lparr>out := out s @ [LogReadFailed ReadError, Log ''Commit not found'']\<rparr>) \<and>
         files (snd (showCommitDiff L h s)) = files s"
  using assms
  by (simp add: showCommitDiff_def getCommitData_def readFile_def JSON_parse_def console_log_def)

theorem C5_show_missing_witness:
  "files demo_repo (ObjectFile ''0123abcd'') = None \<and> parse toy_lib ''null'' = Some JNull \<and>
   showCommitDiff toy_lib ''0123abcd'' demo_repo =
     (Inr (), demo_repo\<lparr>out := out demo_repo @ [LogReadFailed ReadError, Log ''Commit not found'']\<rparr>) \<and>
   files (snd (showCommitDiff toy_lib ''0123abcd'' demo_repo)) = files demo_repo"
  using C5_show_missing[OF demo_repo_files(6) toy_parse_null, of "''0123abcd''"]
    demo_repo_files(6)[of "''0123abcd''"] toy_parse_null
  by blast

section \<open>The head and the empty commit\<close>

text \<open>
  Claim C4, as the code has it. \<open>getCurrentHead\<close> returns \<open>null\<close> when the head file is
  absent and the content of the head file otherwise; it has no failing outcome. For an
  empty head file that content is the empty string, which is falsy like \<open>null\<close>: the
  result is truthy exactly when the head file holds a non-empty text.
\<close>

theorem C4_getCurrentHead:
  "getCurrentHead s = (case files s HeadFile of None \<Rightarrow> JNull | Some t \<Rightarrow> JStr t) \<and>
   (truthy (Some (getCurrentHead s)) \<longleftrightarrow> (\<exists>t. files s HeadFile = Some t \<and> t \<noteq> []))"
  by (cases "files s HeadFile") (simp_all add: getCurrentHead_def readFile_def)

theorem C4_getCurrentHead_witness:
  "getCurrentHead fresh = JNull \<and> getCurrentHead demo_repo = JStr [] \<and>
   getCurrentHead demo_first = JStr demo_h1"
  using C4_getCurrentHead[of fresh] C4_getCurrentHead[of demo_repo] C4_getCurrentHead[of demo_first]
    demo_repo_files(2) demo_first_head
  by (simp add: fresh_def)

text \<open>
  Claim C4 as stated fails: in a freshly initialised repository the head file is empty, and
  \<open>getCurrentHead\<close> returns the empty string, not \<open>null\<close>.
\<close>

theorem C4_counterexample:
  "files (init toy_lib fresh) HeadFile = Some [] \<and> getCurrentHead (init toy_lib fresh) \<noteq> JNull"
  by (simp add: getCurrentHead_def readFile_def init_def fresh_def writeFile_def Let_def)

text \<open>
  Claim C10. When the index holds the empty array, \<open>commit\<close> succeeds: it stores the record
  with empty \<open>files\<close> under its hash, writes that hash to the head file, rewrites the index
  and prints the hash. Nothing requires that a file was staged.
\<close>

theorem C10_commit_empty:
  assumes "files s IndexFile = Some t" and "parse L t = Some (JArr [])"
    and "cd = commitData timestamp message (JArr []) (getCurrentHead s)"
    and "h = hashObject L (stringify L cd)"
  shows "commit L timestamp message s =
           (Inr (), s\<lparr>files := (files s)(ObjectFile h \<mapsto> stringify L cd, HeadFile \<mapsto> h,
                                        IndexFile \<mapsto> stringify L (JArr [])),
                      out := out s @ [LogCommitted h]\<rparr>)"
  using assms
  by (simp add: commit_def readFile_def writeFile_def console_log_def Let_def getCurrentHead_def)

theorem C10_commit_empty_witness:
  "files demo_repo IndexFile = Some (toy_stringify (JArr [])) \<and>
   fst (commit toy_lib ''2026-01-01T00:00:00.000Z'' ''nothing staged'' demo_repo) = Inr () \<and>
   files (snd (commit toy_lib ''2026-01-01T00:00:00.000Z'' ''nothing staged'' demo_repo)) HeadFile =
     Some (hashObject toy_lib (stringify toy_lib
        (commitData ''2026-01-01T00:00:00.000Z'' ''nothing staged'' (JArr []) (JStr []))))"
proof -
  have h: "getCurrentHead demo_repo = JStr []"
    by (simp add: getCurrentHead_files demo_repo_files(2))
  show ?thesis
    using C10_commit_empty[OF demo_repo_files(1) toy_lib_parse_stringify refl refl,
        of "''2026-01-01T00:00:00.000Z''" "''nothing staged''"] demo_repo_files(1)
    by (simp add: h)
qed

section \<open>Identical texts\<close>

lemma concat_split_lines: "concat (split_lines x) = x"
  by (induction x) (auto split: list.splits)

lemma split_lines_Nil: "split_lines x = [] \<longleftrightarrow> x = []"
  by (cases x) (auto split: list.splits)

lemma edit_script_same: "edit_script ls ls = map (Pair Unchanged) ls"
  by (induction ls) auto

lemma coalesce_unchanged:
  "coalesce ((Unchanged, t) # map (Pair Unchanged) ls) = [Segment Unchanged (t @ concat ls)]"
  by (induction ls arbitrary: t) auto

text \<open>
  Claim C8. For a non-empty text \<open>x\<close>, \<open>diffLines x x\<close> is the single segment of kind
  \<open>Unchanged\<close> whose text is \<open>x\<close>.
\<close>

theorem C8_diff_identical:
  assumes "x \<noteq> []"
  shows "diffLines x x = [Segment Unchanged x]"
proof -
  obtain l ls where ls: "split_lines x = l # ls"
    using assms split_lines_Nil[of x] by (cases "split_lines x") auto
  have "l @ concat ls = x"
    using concat_split_lines[of x] ls by simp
  then show ?thesis
    by (simp add: diffLines_def edit_script_same ls coalesce_unchanged)
qed

theorem C8_diff_identical_witness:
  "''hello'' @ [CHR 0x0A] @ ''world'' \<noteq> [] \<and>
   diffLines (''hello'' @ [CHR 0x0A] @ ''world'') (''hello'' @ [CHR 0x0A] @ ''world'')
     = [Segment Unchanged (''hello'' @ [CHR 0x0A] @ ''world'')]"
  using C8_diff_identical[of "''hello'' @ [CHR 0x0A] @ ''world''"] by simp

end
